theory Spec2Isabelle
  imports Complex_Main "HOL-Library.Sublist"
begin

section \<open>Data of the detection post-processing\<close>

text \<open>
  JavaScript numbers are modelled as real numbers: comparison, \<^verbatim>\<open>Math.max\<close>,
  \<^verbatim>\<open>Math.min\<close>, sums, differences, products and quotients are the exact ones, and no
  value is NaN or infinite.

  A corner box is the array \<^verbatim>\<open>[top, left, bottom, right]\<close> that
  \<^verbatim>\<open>predict\<close> destructures; it is the tuple of its four entries, in that order.
  The bound names \<open>t\<close>, \<open>l\<close>, \<open>b\<close>, \<open>r\<close> stand for \<^verbatim>\<open>top\<close>,
  \<^verbatim>\<open>left\<close>, \<^verbatim>\<open>bottom\<close>, \<^verbatim>\<open>right\<close>.
\<close>

type_synonym CornerBox = "real \<times> real \<times> real \<times> real"

text \<open>An anchor prior is the pair (width, height).\<close>

type_synonym Anchor = "real \<times> real"

text \<open>
  \<^verbatim>\<open>IRect\<close> and \<^verbatim>\<open>IDetectedObject\<close>. The field \<^verbatim>\<open>class\<close>
  of the source is \<open>className\<close> here; it holds the entry of the class-name table, which is
  \<^verbatim>\<open>undefined\<close> (\<open>None\<close>) when the index is past the end of the table.
\<close>

record IRect =
  rect_x :: real
  rect_y :: real
  rect_width :: real
  rect_height :: real

record IDetectedObject =
  className :: "string option"
  probability :: real
  rect :: IRect

text \<open>
  The entries of \<^verbatim>\<open>AppSettings\<close> that \<^verbatim>\<open>predict\<close> reads. The
  settings module is not part of the sources, so its values are parameters.
\<close>

record AppSettings =
  yoloModelAnchors :: "Anchor list"
  yoloModelClassCount :: nat
  yoloModelIouThreshold :: real
  yoloModelClassProbThreshold :: real
  yoloModelInputPixelSize :: real

text \<open>
  The four static methods of \<^verbatim>\<open>YoloDataProcessingUtil\<close> that \<^verbatim>\<open>predict\<close>
  calls. The class is not part of the sources, so the methods are parameters of
  \<open>predict\<close>; \<open>'t\<close> is the type of the tensors they exchange.
  \<^item> \<open>filterBoxes\<close> answers \<open>None\<close> when the boxes it returns are \<^verbatim>\<open>null\<close>,
    and otherwise the rows of the box tensor, the scores and the class indices;
  \<^item> \<open>nonMaxSuppression\<close> answers its three parallel arrays
    \<^verbatim>\<open>[keepIndx, boxesArr, keepScores]\<close> as one list of triples.
\<close>

record 't YoloDataProcessingUtil =
  yoloHead :: "'t \<Rightarrow> Anchor list \<Rightarrow> nat \<Rightarrow> 't \<times> 't \<times> 't \<times> 't"
  boxesToCorners :: "'t \<Rightarrow> 't \<Rightarrow> 't"
  filterBoxes :: "'t \<Rightarrow> 't \<Rightarrow> 't \<Rightarrow> real \<Rightarrow> (CornerBox list \<times> real list \<times> nat list) option"
  nonMaxSuppression :: "CornerBox list \<Rightarrow> real list \<Rightarrow> real \<Rightarrow> (nat \<times> CornerBox \<times> real) list"

text \<open>
  \<open>GatherIndexError\<close>: a kept index that is no position of the class tensor.
  \<open>ShapeError\<close>: the error of the grid decoder.
\<close>

datatype error = GatherIndexError | ShapeError

section \<open>ImageLoader.predict\<close>

text \<open>\<^verbatim>\<open>classNames[classIndx]\<close>: reading past the end of an array gives \<^verbatim>\<open>undefined\<close>.\<close>

definition lookup :: "'a list \<Rightarrow> nat \<Rightarrow> 'a option" where
  "lookup xs i = (if i < length xs then Some (xs ! i) else None)"

text \<open>
  \<^verbatim>\<open>classes.gather(tf.tensor1d(keepIndx, 'int32'))\<close>: the class index stored at each
  kept position. The source raises nothing for an index past the end of \<open>classes\<close>, and
  the sources do not fix what the tensor library reads there; the model answers
  \<open>GatherIndexError\<close> in that case, and every statement about the detections is about kept
  indices that are positions of \<open>classes\<close>.
\<close>

fun gather :: "nat list \<Rightarrow> nat list \<Rightarrow> error + nat list" where
  "gather classes [] = Inr []"
| "gather classes (k # ks) =
     (if k < length classes
      then (case gather classes ks of Inl e \<Rightarrow> Inl e | Inr cs \<Rightarrow> Inr (classes ! k # cs))
      else Inl GatherIndexError)"

text \<open>\<^verbatim>\<open>tf.mul(boxes, imageDims)\<close> with \<^verbatim>\<open>imageDims = [height, width, height, width]\<close>.\<close>

fun mulImageDims :: "real \<Rightarrow> real \<Rightarrow> CornerBox \<Rightarrow> CornerBox" where
  "mulImageDims h w (t, l, b, r) = (t * h, l * w, b * h, r * w)"

text \<open>
  The clamping at the consumer boundary:
  \<^verbatim>\<open>top = Math.max(0, top); left = Math.max(0, left);
  bottom = Math.min(this.maxPix, bottom); right = Math.min(this.maxPix, right)\<close>.
\<close>

fun clampBox :: "real \<Rightarrow> CornerBox \<Rightarrow> CornerBox" where
  "clampBox maxPix (t, l, b, r) = (max 0 t, max 0 l, min maxPix b, min maxPix r)"

text \<open>The object literal \<^verbatim>\<open>nextObject\<close>, built from the clamped corners.\<close>

fun nextObject :: "string list \<Rightarrow> real \<Rightarrow> nat \<Rightarrow> real \<Rightarrow> CornerBox \<Rightarrow> IDetectedObject" where
  "nextObject classNames maxPix classIndx classProbability bx =
     (case clampBox maxPix bx of
        (t, l, b, r) \<Rightarrow>
          \<lparr>className = lookup classNames classIndx,
           probability = classProbability,
           rect = \<lparr>rect_x = l, rect_y = t, rect_width = r - l, rect_height = b - t\<rparr>\<rparr>)"

text \<open>
  The loop \<^verbatim>\<open>classesIndxArr.forEach((classIndx, i) => ...)\<close>. Its list pairs each
  \<open>classIndx\<close> with the entry \<open>i\<close> of the suppression's arrays; \<open>results\<close> is the array
  the callback pushes to. An entry whose score is below the threshold is skipped by the
  early \<^verbatim>\<open>return\<close>.
\<close>

fun forEach :: "real \<Rightarrow> real \<Rightarrow> string list \<Rightarrow> (nat \<times> nat \<times> CornerBox \<times> real) list \<Rightarrow>
    IDetectedObject list \<Rightarrow> IDetectedObject list" where
  "forEach classProbThreshold maxPix classNames [] results = results"
| "forEach classProbThreshold maxPix classNames ((classIndx, keepIdx, bx, classProbability) # rest) results =
     (if classProbability < classProbThreshold
      then forEach classProbThreshold maxPix classNames rest results
      else forEach classProbThreshold maxPix classNames rest
             (results @ [nextObject classNames maxPix classIndx classProbability bx]))"

text \<open>
  \<open>predict\<close> from the output of the network on: the head and the corner conversion, the
  coarse filter at \<open>0.01\<close>, the early return of the empty list, the scaling to pixels, the
  suppression, the gathering of the class indices and the loop.
\<close>

definition predict :: "'t YoloDataProcessingUtil \<Rightarrow> AppSettings \<Rightarrow> string list \<Rightarrow> 't \<Rightarrow>
    error + IDetectedObject list" where
  "predict util settings classNames modelOutput =
     (let anchors = yoloModelAnchors settings;
          numClasses = yoloModelClassCount settings;
          maxPix = yoloModelInputPixelSize settings in
      case yoloHead util modelOutput anchors numClasses of
        (boxXY, boxWH, boxConfidence, boxClassProbs) \<Rightarrow>
          (let allBoxes = boxesToCorners util boxXY boxWH in
           case filterBoxes util allBoxes boxConfidence boxClassProbs (1 / 100) of
             None \<Rightarrow> Inr []
           | Some (boxes, scores, classes) \<Rightarrow>
               (let scaled = map (mulImageDims maxPix maxPix) boxes;
                    kept = nonMaxSuppression util scaled scores (yoloModelIouThreshold settings) in
                case gather classes (map fst kept) of
                  Inl e \<Rightarrow> Inl e
                | Inr classesIndxArr \<Rightarrow>
                    Inr (forEach (yoloModelClassProbThreshold settings) maxPix classNames
                           (zip classesIndxArr kept) []))))"

text \<open>
  Two stages of \<open>predict\<close>, named so that statements can refer to them: the answer of
  \<open>filterBoxes\<close> on the decoded boxes, and the answer of \<open>nonMaxSuppression\<close> on the
  boxes scaled to pixels.
\<close>

definition filtered :: "'t YoloDataProcessingUtil \<Rightarrow> AppSettings \<Rightarrow> 't \<Rightarrow>
    (CornerBox list \<times> real list \<times> nat list) option" where
  "filtered util settings modelOutput =
     (case yoloHead util modelOutput (yoloModelAnchors settings) (yoloModelClassCount settings) of
        (boxXY, boxWH, boxConfidence, boxClassProbs) \<Rightarrow>
          filterBoxes util (boxesToCorners util boxXY boxWH) boxConfidence boxClassProbs (1 / 100))"

definition suppressed :: "'t YoloDataProcessingUtil \<Rightarrow> AppSettings \<Rightarrow> CornerBox list \<Rightarrow> real list \<Rightarrow>
    (nat \<times> CornerBox \<times> real) list" where
  "suppressed util settings boxes scores =
     nonMaxSuppression util
       (map (mulImageDims (yoloModelInputPixelSize settings) (yoloModelInputPixelSize settings)) boxes)
       scores (yoloModelIouThreshold settings)"

section \<open>The pipeline components of the specification\<close>

text \<open>
  The bodies of \<^verbatim>\<open>yoloHead\<close>, \<^verbatim>\<open>boxesToCorners\<close>, \<^verbatim>\<open>filterBoxes\<close>
  and \<^verbatim>\<open>nonMaxSuppression\<close> are not part of the sources. The components below follow
  the component design of the specification (GridDecoder, ScoreFilter, Suppressor).
\<close>

subsection \<open>Suppressor\<close>

text \<open>Modelled from the spec: the data model's ScoredBox, a corner box with its class index and score.\<close>

record ScoredBox =
  box :: CornerBox
  classIndex :: nat
  score :: real

text \<open>
  Modelled from the spec: the area of a corner box in the intersection-over-union of the
  Suppressor, whose code is missing. A malformed box (\<open>top > bottom\<close> or \<open>left > right\<close>)
  is treated as a box of area zero.
\<close>

fun area :: "CornerBox \<Rightarrow> real" where
  "area (t, l, b, r) = max 0 (b - t) * max 0 (r - l)"

text \<open>
  Modelled from the spec: \<open>intersectionArea = max(0, min(bottoms) - max(tops)) *
  max(0, min(rights) - max(lefts))\<close>, of the Suppressor, whose code is missing.
\<close>

fun intersectionArea :: "CornerBox \<Rightarrow> CornerBox \<Rightarrow> real" where
  "intersectionArea (t1, l1, b1, r1) (t2, l2, b2, r2) =
     max 0 (min b1 b2 - max t1 t2) * max 0 (min r1 r2 - max l1 l2)"

text \<open>
  Modelled from the spec: \<open>IoU(a, b) = intersectionArea(a, b) / (areaA + areaB -
  intersectionArea(a, b))\<close>, of the Suppressor, whose code is missing. A union of area zero
  gives \<open>0\<close>, so that nothing is divided by zero.
\<close>

definition IoU :: "CornerBox \<Rightarrow> CornerBox \<Rightarrow> real" where
  "IoU a b =
     (let inter = intersectionArea a b;
          union = area a + area b - inter
      in if union \<le> 0 then 0 else inter / union)"

text \<open>
  Modelled from the spec: the order of step 1 of the Suppressor, whose code is missing:
  by score descending, ties broken by the original index ascending.
\<close>

definition before :: "ScoredBox list \<Rightarrow> nat \<Rightarrow> nat \<Rightarrow> bool" where
  "before boxes i j \<longleftrightarrow>
     score (boxes ! j) < score (boxes ! i) \<or> (score (boxes ! i) = score (boxes ! j) \<and> i < j)"

text \<open>
  Modelled from the spec: step 1 of the Suppressor (``sort indices by score descending''),
  whose code is missing, as an insertion sort under the order \<open>before\<close>.
\<close>

fun insertIndex :: "ScoredBox list \<Rightarrow> nat \<Rightarrow> nat list \<Rightarrow> nat list" where
  "insertIndex boxes i [] = [i]"
| "insertIndex boxes i (j # js) =
     (if before boxes i j then i # j # js else j # insertIndex boxes i js)"

text \<open>Modelled from the spec: the sort of step 1 of the Suppressor, whose code is missing.\<close>

fun sortIndices :: "ScoredBox list \<Rightarrow> nat list \<Rightarrow> nat list" where
  "sortIndices boxes [] = []"
| "sortIndices boxes (i # is) = insertIndex boxes i (sortIndices boxes is)"

text \<open>
  Modelled from the spec: one round of step 3 of the Suppressor, whose code is missing:
  ``remove from \<open>remaining\<close> every index \<open>j\<close> whose box has
  \<open>IoU(box[i], box[j]) > iouThreshold\<close>'', whatever its class.
\<close>

definition survivors :: "real \<Rightarrow> ScoredBox list \<Rightarrow> nat \<Rightarrow> nat list \<Rightarrow> nat list" where
  "survivors iouThreshold boxes i remaining =
     filter (\<lambda>j. \<not> iouThreshold < IoU (box (boxes ! i)) (box (boxes ! j))) remaining"

text \<open>
  Modelled from the spec: the loop of steps 2 to 4 of the Suppressor, whose code is
  missing: while \<open>remaining\<close> is non-empty, pop its first index, append it to \<open>kept\<close> and
  remove the indices it suppresses.
\<close>

function select :: "real \<Rightarrow> ScoredBox list \<Rightarrow> nat list \<Rightarrow> nat list \<Rightarrow> nat list" where
  "select iouThreshold boxes [] kept = kept"
| "select iouThreshold boxes (i # remaining) kept =
     select iouThreshold boxes (survivors iouThreshold boxes i remaining) (kept @ [i])"
  by pat_completeness auto
termination
  by (relation "measure (\<lambda>(iouThreshold, boxes, remaining, kept). length remaining)")
     (auto simp: survivors_def less_Suc_eq_le)

text \<open>
  Modelled from the spec: \<open>suppress(boxes, iouThreshold)\<close> of the Suppressor, whose code
  is missing: the boxes at the kept indices, in selection order.
\<close>

definition suppress :: "ScoredBox list \<Rightarrow> real \<Rightarrow> ScoredBox list" where
  "suppress boxes iouThreshold =
     map (\<lambda>i. boxes ! i) (select iouThreshold boxes (sortIndices boxes [0..<length boxes]) [])"

subsection \<open>ScoreFilter\<close>

text \<open>
  Modelled from the spec: the data model's DecodedBox, a box in center form with its
  objectness confidence and its class probabilities.
\<close>

record DecodedBox =
  centerX :: real
  centerY :: real
  width :: real
  height :: real
  confidence :: real
  classProbs :: "real list"

text \<open>
  Modelled from the spec: \<open>argmax(classProbs)\<close> of the ScoreFilter, whose code is
  missing, ties broken by the lowest index.
\<close>

fun argmax :: "real list \<Rightarrow> nat" where
  "argmax [] = 0"
| "argmax [p] = 0"
| "argmax (p # q # ps) = (let j = argmax (q # ps) in if (q # ps) ! j \<le> p then 0 else Suc j)"

text \<open>
  Modelled from the spec: the scoring of one box by the ScoreFilter, whose code is missing:
  \<open>classIndex = argmax(classProbs)\<close> and \<open>score = confidence * classProbs[classIndex]\<close>.
  The specification says nothing of a box without class probabilities; it has no class
  index and no score here.
\<close>

fun scoreBox :: "DecodedBox \<times> CornerBox \<Rightarrow> ScoredBox option" where
  "scoreBox (d, c) =
     (if classProbs d = [] then None
      else Some \<lparr>box = c, classIndex = argmax (classProbs d),
                 score = confidence d * classProbs d ! argmax (classProbs d)\<rparr>)"

text \<open>
  Modelled from the spec: \<open>filter(boxes, minScore)\<close> of the ScoreFilter, whose code is
  missing: ``keep only boxes where \<open>score >= minScore\<close>''.
\<close>

fun scoreFilter :: "(DecodedBox \<times> CornerBox) list \<Rightarrow> real \<Rightarrow> ScoredBox list" where
  "scoreFilter [] minScore = []"
| "scoreFilter (p # ps) minScore =
     (case scoreBox p of
        None \<Rightarrow> scoreFilter ps minScore
      | Some sb \<Rightarrow> if minScore \<le> score sb then sb # scoreFilter ps minScore
                   else scoreFilter ps minScore)"

subsection \<open>GridDecoder\<close>

text \<open>
  Modelled from the spec: the data model's RawOutput, a grid of shape
  \<open>[gridHeight, gridWidth, numAnchors, depth]\<close>; \<open>entry raw row col a k\<close> is its value at
  that position. The last axis holds \<open>tx, ty, tw, th, objectness\<close> and the class logits.
\<close>

record RawOutput =
  gridHeight :: nat
  gridWidth :: nat
  numAnchors :: nat
  depth :: nat
  entry :: "nat \<Rightarrow> nat \<Rightarrow> nat \<Rightarrow> nat \<Rightarrow> real"

text \<open>Modelled from the spec: the squashing function of the GridDecoder, whose code is missing.\<close>

definition sigmoid :: "real \<Rightarrow> real" where
  "sigmoid v = 1 / (1 + exp (- v))"

text \<open>
  Modelled from the spec: the box that the GridDecoder, whose code is missing, decodes at
  the grid cell \<open>(row, col)\<close> for the anchor \<open>a\<close>.
\<close>

definition decodeBox :: "RawOutput \<Rightarrow> Anchor list \<Rightarrow> nat \<Rightarrow> nat \<Rightarrow> nat \<Rightarrow> nat \<Rightarrow> DecodedBox" where
  "decodeBox raw anchors numClasses row col a =
     \<lparr>centerX = (sigmoid (entry raw row col a 0) + real col) / real (gridWidth raw),
      centerY = (sigmoid (entry raw row col a 1) + real row) / real (gridHeight raw),
      width = fst (anchors ! a) * exp (entry raw row col a 2) / real (gridWidth raw),
      height = snd (anchors ! a) * exp (entry raw row col a 3) / real (gridHeight raw),
      confidence = sigmoid (entry raw row col a 4),
      classProbs = map (\<lambda>i. sigmoid (entry raw row col a (5 + i))) [0..<numClasses]\<rparr>"

text \<open>
  Modelled from the spec: \<open>decode(raw, anchors, numClasses)\<close> of the GridDecoder, whose code
  is missing. It fails with \<open>ShapeError\<close> when the last dimension is not
  \<open>5 + numClasses\<close> or the number of anchors is not \<open>numAnchors\<close>; the boxes come row by
  row, cell by cell, anchor by anchor.
\<close>

definition decode :: "RawOutput \<Rightarrow> Anchor list \<Rightarrow> nat \<Rightarrow> error + DecodedBox list" where
  "decode raw anchors numClasses =
     (if depth raw \<noteq> 5 + numClasses \<or> length anchors \<noteq> numAnchors raw then Inl ShapeError
      else Inr (concat (map (\<lambda>row.
                  concat (map (\<lambda>col.
                    map (\<lambda>a. decodeBox raw anchors numClasses row col a) [0..<numAnchors raw])
                  [0..<gridWidth raw]))
                [0..<gridHeight raw])))"

section \<open>Example inputs\<close>

text \<open>A suppression that keeps every box, in the order of the input.\<close>

definition keepAll :: "CornerBox list \<Rightarrow> real list \<Rightarrow> real \<Rightarrow> (nat \<times> CornerBox \<times> real) list" where
  "keepAll boxes scores iouThreshold = zip [0..<length scores] (zip boxes scores)"

text \<open>
  A filter over four fixed candidates (box, score, class index); it answers \<open>None\<close> when no
  candidate reaches the threshold.
\<close>

definition exampleFilterBoxes :: "real \<Rightarrow> (CornerBox list \<times> real list \<times> nat list) option" where
  "exampleFilterBoxes threshold =
     (let candidates =
            [((1 / 10, 1 / 10, 1 / 2, 1 / 2), 9 / 10, 0),
             ((6 / 10, 6 / 10, 9 / 10, 11 / 10), 3 / 10, 1),
             ((0, 0, 1, 1), 1 / 10, 0),
             ((0, 0, 1 / 2, 1 / 2), 1 / 1000, 1::nat)];
          passed = filter (\<lambda>(bx, s, c). threshold \<le> s) candidates
      in if passed = [] then None
         else Some (map (\<lambda>(bx, s, c). bx) passed, map (\<lambda>(bx, s, c). s) passed,
                    map (\<lambda>(bx, s, c). c) passed))"

definition exampleUtil :: "unit YoloDataProcessingUtil" where
  "exampleUtil =
     \<lparr>yoloHead = (\<lambda>modelOutput anchors numClasses. ((), (), (), ())),
      boxesToCorners = (\<lambda>boxXY boxWH. ()),
      filterBoxes = (\<lambda>allBoxes boxConfidence boxClassProbs threshold. exampleFilterBoxes threshold),
      nonMaxSuppression = keepAll\<rparr>"

definition emptyUtil :: "unit YoloDataProcessingUtil" where
  "emptyUtil = exampleUtil\<lparr>filterBoxes := (\<lambda>allBoxes boxConfidence boxClassProbs threshold. None)\<rparr>"

definition exampleSettings :: AppSettings where
  "exampleSettings =
     \<lparr>yoloModelAnchors = [], yoloModelClassCount = 2, yoloModelIouThreshold = 4 / 10,
      yoloModelClassProbThreshold = 2 / 10, yoloModelInputPixelSize = 416\<rparr>"

text \<open>
  Four boxes: the first overlaps the second, and the second contains the third and the
  fourth, which are disjoint.
\<close>

definition overlapExample :: "ScoredBox list" where
  "overlapExample =
     [\<lparr>box = (1, 0, 5, 6), classIndex = 0, score = 9 / 10\<rparr>,
      \<lparr>box = (0, 0, 2, 6), classIndex = 0, score = 8 / 10\<rparr>,
      \<lparr>box = (0, 0, 2, 3), classIndex = 0, score = 7 / 10\<rparr>,
      \<lparr>box = (0, 3, 2, 6), classIndex = 0, score = 6 / 10\<rparr>]"

definition exampleDecoded :: "(DecodedBox \<times> CornerBox) list" where
  "exampleDecoded =
     [(\<lparr>centerX = 1 / 2, centerY = 1 / 2, width = 1 / 2, height = 1 / 2,
        confidence = 9 / 10, classProbs = [1 / 10, 8 / 10]\<rparr>, (1 / 4, 1 / 4, 3 / 4, 3 / 4)),
      (\<lparr>centerX = 1 / 4, centerY = 1 / 4, width = 1 / 2, height = 1 / 2,
        confidence = 1 / 2, classProbs = [2 / 10, 2 / 10]\<rparr>, (0, 0, 1 / 2, 1 / 2))]"

definition exampleRaw :: RawOutput where
  "exampleRaw = \<lparr>gridHeight = 1, gridWidth = 2, numAnchors = 1, depth = 6,
                  entry = (\<lambda>row col a k. 0)\<rparr>"

section \<open>The clamping step\<close>

lemma clampBox_ordered_iff:
  "(case clampBox maxPix (t, l, b, r) of (t', l', b', r') \<Rightarrow> t' \<le> b' \<and> l' \<le> r') \<longleftrightarrow>
     0 \<le> maxPix \<and> t \<le> b \<and> 0 \<le> b \<and> t \<le> maxPix \<and> l \<le> r \<and> 0 \<le> r \<and> l \<le> maxPix"
  by (auto simp: max_def min_def)

text \<open>
  C1, as stated, fails: a box that lies wholly above the image (\<open>top = -5\<close>, \<open>bottom = -3\<close>)
  is ordered before the clamping and not after it, since \<open>top\<close> becomes \<open>0\<close> and \<open>bottom\<close>
  stays \<open>-3\<close>.
\<close>

theorem clampBox_order_counterexample:
  "((-5::real) \<le> -3 \<and> (0::real) \<le> 10) \<and>
   \<not> (case clampBox 416 (-5, 0, -3, 10) of (t', l', b', r') \<Rightarrow> t' \<le> b' \<and> l' \<le> r')"
  by simp

text \<open>
  C1 (amended): for every corner box with \<open>top \<le> bottom\<close> and \<open>left \<le> right\<close> that meets the
  model-input square (\<open>0 \<le> bottom\<close>, \<open>0 \<le> right\<close>, \<open>top \<le> maxPix\<close>, \<open>left \<le> maxPix\<close>, with
  \<open>0 \<le> maxPix\<close>), the clamped box still satisfies \<open>top \<le> bottom\<close> and \<open>left \<le> right\<close>.
\<close>

theorem clampBox_keeps_order:
  assumes "t \<le> b" and "l \<le> r"
    and "0 \<le> b" and "0 \<le> r" and "t \<le> maxPix" and "l \<le> maxPix" and "0 \<le> maxPix"
  shows "case clampBox maxPix (t, l, b, r) of (t', l', b', r') \<Rightarrow> t' \<le> b' \<and> l' \<le> r'"
  using assms by (simp only: clampBox_ordered_iff)

theorem clampBox_keeps_order_witness:
  "case clampBox 416 (-5, 400, 20, 500) of (t', l', b', r') \<Rightarrow> t' \<le> b' \<and> l' \<le> r'"
  using clampBox_keeps_order [of "-5" 20 400 500 416] by simp

section \<open>The result of predict\<close>

lemma forEach_append:
  "forEach thr maxPix names es results =
     results @ map (\<lambda>(classIndx, k, bx, s). nextObject names maxPix classIndx s bx)
                 (filter (\<lambda>(classIndx, k, bx, s). \<not> s < thr) es)"
  by (induction thr maxPix names es results rule: forEach.induct) auto

lemma gather_in_range:
  "\<forall>k \<in> set ks. k < length classes \<Longrightarrow> gather classes ks = Inr (map (\<lambda>k. classes ! k) ks)"
  by (induction ks) auto

lemma gather_Inr_D:
  "gather classes ks = Inr cs \<Longrightarrow> (\<forall>k \<in> set ks. k < length classes) \<and> cs = map (\<lambda>k. classes ! k) ks"
  by (induction ks arbitrary: cs) (auto split: sum.splits if_splits)

lemma predict_None:
  "filtered util settings out = None \<Longrightarrow> predict util settings names out = Inr []"
  by (simp add: predict_def filtered_def Let_def split: prod.splits)

lemma predict_Some:
  assumes "filtered util settings out = Some (boxes, scores, classes)"
  shows "predict util settings names out =
    (case gather classes (map fst (suppressed util settings boxes scores)) of
       Inl e \<Rightarrow> Inl e
     | Inr classesIndxArr \<Rightarrow>
         Inr (forEach (yoloModelClassProbThreshold settings) (yoloModelInputPixelSize settings) names
                (zip classesIndxArr (suppressed util settings boxes scores)) []))"
  using assms unfolding suppressed_def
  by (simp add: predict_def filtered_def Let_def split: prod.splits)

lemma zip_gathered:
  "zip (map (\<lambda>k. classes ! k) (map fst kept)) kept = map (\<lambda>(k, bx, s). (classes ! k, k, bx, s)) kept"
  by (induction kept) auto

lemma forEach_gathered:
  "forEach thr maxPix names (map (\<lambda>(k, bx, s). (classes ! k, k, bx, s)) kept) [] =
     map (\<lambda>(k, bx, s). nextObject names maxPix (classes ! k) s bx)
       (filter (\<lambda>(k, bx, s). \<not> s < thr) kept)"
  unfolding forEach_append
  by (induction kept) (auto simp del: nextObject.simps)

lemma predict_in_range:
  assumes "filtered util settings out = Some (boxes, scores, classes)"
    and "\<forall>k \<in> set (map fst (suppressed util settings boxes scores)). k < length classes"
  shows "predict util settings names out =
     Inr (map (\<lambda>(k, bx, s). nextObject names (yoloModelInputPixelSize settings) (classes ! k) s bx)
            (filter (\<lambda>(k, bx, s). \<not> s < yoloModelClassProbThreshold settings)
               (suppressed util settings boxes scores)))"
  unfolding predict_Some [OF assms(1)] gather_in_range [OF assms(2)]
  by (simp only: zip_gathered forEach_gathered sum.case)

lemma nextObject_in_square:
  "0 \<le> rect_x (rect (nextObject names maxPix classIndx s bx)) \<and>
   0 \<le> rect_y (rect (nextObject names maxPix classIndx s bx)) \<and>
   rect_x (rect (nextObject names maxPix classIndx s bx)) +
     rect_width (rect (nextObject names maxPix classIndx s bx)) \<le> maxPix \<and>
   rect_y (rect (nextObject names maxPix classIndx s bx)) +
     rect_height (rect (nextObject names maxPix classIndx s bx)) \<le> maxPix"
  by (cases bx) simp

lemma forEach_set:
  "d \<in> set (forEach thr maxPix names es []) \<Longrightarrow>
     \<exists>classIndx s bx. d = nextObject names maxPix classIndx s bx"
  unfolding forEach_append by (fastforce simp del: nextObject.simps)

subsection \<open>The example run\<close>

lemma example_filtered:
  "filtered exampleUtil exampleSettings () =
     Some ([(1 / 10, 1 / 10, 1 / 2, 1 / 2), (6 / 10, 6 / 10, 9 / 10, 11 / 10), (0, 0, 1, 1)],
           [9 / 10, 3 / 10, 1 / 10], [0, 1, 0])"
  by (simp add: filtered_def exampleUtil_def exampleFilterBoxes_def)

lemma example_suppressed:
  "suppressed exampleUtil exampleSettings
     [(1 / 10, 1 / 10, 1 / 2, 1 / 2), (6 / 10, 6 / 10, 9 / 10, 11 / 10), (0, 0, 1, 1)]
     [9 / 10, 3 / 10, 1 / 10] =
   [(0, (208 / 5, 208 / 5, 208, 208), 9 / 10),
    (1, (1248 / 5, 1248 / 5, 1872 / 5, 2288 / 5), 3 / 10),
    (2, (0, 0, 416, 416), 1 / 10)]"
  by (simp add: suppressed_def exampleUtil_def exampleSettings_def keepAll_def upt_rec)

lemma example_in_range:
  "\<forall>k \<in> set (map fst (suppressed exampleUtil exampleSettings
     [(1 / 10, 1 / 10, 1 / 2, 1 / 2), (6 / 10, 6 / 10, 9 / 10, 11 / 10), (0, 0, 1, 1)]
     [9 / 10, 3 / 10, 1 / 10])). k < length [0, 1, 0::nat]"
  unfolding example_suppressed by simp

lemma example_predict:
  "predict exampleUtil exampleSettings [''person''] () =
     Inr [\<lparr>className = Some ''person'', probability = 9 / 10,
           rect = \<lparr>rect_x = 208 / 5, rect_y = 208 / 5, rect_width = 832 / 5, rect_height = 832 / 5\<rparr>\<rparr>,
          \<lparr>className = None, probability = 3 / 10,
           rect = \<lparr>rect_x = 1248 / 5, rect_y = 1248 / 5, rect_width = 832 / 5, rect_height = 624 / 5\<rparr>\<rparr>]"
  unfolding predict_in_range [OF example_filtered example_in_range] example_suppressed
  by (simp add: exampleSettings_def lookup_def)

subsection \<open>Nothing detected\<close>

text \<open>
  C2: when the filtering stage reports that all boxes were filtered out (\<open>filterBoxes\<close>
  answers \<^verbatim>\<open>null\<close>), or when the suppression keeps nothing, \<open>predict\<close> returns the empty
  list of detections: a value, not an error.
\<close>

theorem predict_nothing_detected:
  assumes "filtered util settings modelOutput = None \<or>
     (\<exists>boxes scores classes. filtered util settings modelOutput = Some (boxes, scores, classes) \<and>
        suppressed util settings boxes scores = [])"
  shows "predict util settings classNames modelOutput = Inr []"
  using assms
proof
  assume "filtered util settings modelOutput = None"
  then show ?thesis by (rule predict_None)
next
  assume "\<exists>boxes scores classes. filtered util settings modelOutput = Some (boxes, scores, classes) \<and>
        suppressed util settings boxes scores = []"
  then obtain boxes scores classes
    where f: "filtered util settings modelOutput = Some (boxes, scores, classes)"
      and s: "suppressed util settings boxes scores = []"
    by blast
  show ?thesis unfolding predict_Some [OF f] s by simp
qed

theorem predict_nothing_detected_witness:
  "filtered emptyUtil exampleSettings () = None \<and>
   predict emptyUtil exampleSettings [''person'', ''bicycle''] () = Inr []"
proof -
  have h: "filtered emptyUtil exampleSettings () = None"
    by (simp add: filtered_def emptyUtil_def exampleUtil_def)
  from h predict_nothing_detected [of emptyUtil exampleSettings "()" "[''person'', ''bicycle'']"]
  show ?thesis by simp
qed

subsection \<open>The detections\<close>

text \<open>
  C3: every box that the suppression keeps and whose score is not below the display
  threshold gives one detection, in order, with \<open>className = classNames[classIndex]\<close>
  (the entry of the table at the class index of the box, \<^verbatim>\<open>undefined\<close> when the index
  is past the end of the table), \<open>probability\<close> the score of the box, and the rectangle
  \<open>x = left\<close>, \<open>y = top\<close>, \<open>width = right - left\<close>, \<open>height = bottom - top\<close> of the
  clamped corners (\<open>max 0 top\<close>, \<open>max 0 left\<close>, \<open>min maxPix bottom\<close>,
  \<open>min maxPix right\<close>); here the kept indices are positions of the class tensor.
\<close>

theorem predict_detection_fields:
  assumes "filtered util settings modelOutput = Some (boxes, scores, classes)"
    and "\<forall>k \<in> set (map fst (suppressed util settings boxes scores)). k < length classes"
  shows "predict util settings classNames modelOutput =
     Inr (map (\<lambda>(k, (t, l, b, r), s).
                 \<lparr>className = (if classes ! k < length classNames
                                then Some (classNames ! (classes ! k)) else None),
                  probability = s,
                  rect = \<lparr>rect_x = max 0 l, rect_y = max 0 t,
                           rect_width = min (yoloModelInputPixelSize settings) r - max 0 l,
                           rect_height = min (yoloModelInputPixelSize settings) b - max 0 t\<rparr>\<rparr>)
            (filter (\<lambda>(k, bx, s). \<not> s < yoloModelClassProbThreshold settings)
               (suppressed util settings boxes scores)))"
proof -
  have "(\<lambda>(k, bx, s). nextObject classNames (yoloModelInputPixelSize settings) (classes ! k) s bx) =
        (\<lambda>(k, (t, l, b, r), s).
                 \<lparr>className = (if classes ! k < length classNames
                                then Some (classNames ! (classes ! k)) else None),
                  probability = s,
                  rect = \<lparr>rect_x = max 0 l, rect_y = max 0 t,
                           rect_width = min (yoloModelInputPixelSize settings) r - max 0 l,
                           rect_height = min (yoloModelInputPixelSize settings) b - max 0 t\<rparr>\<rparr>)"
    by (auto simp: fun_eq_iff lookup_def)
  then show ?thesis
    using predict_in_range [OF assms, of classNames] by simp
qed

theorem predict_detection_fields_witness:
  "predict exampleUtil exampleSettings [''person'', ''bicycle'', ''car''] () =
     Inr [\<lparr>className = Some ''person'', probability = 9 / 10,
           rect = \<lparr>rect_x = 208 / 5, rect_y = 208 / 5, rect_width = 832 / 5, rect_height = 832 / 5\<rparr>\<rparr>,
          \<lparr>className = Some ''bicycle'', probability = 3 / 10,
           rect = \<lparr>rect_x = 1248 / 5, rect_y = 1248 / 5, rect_width = 832 / 5, rect_height = 624 / 5\<rparr>\<rparr>] \<and>
   predict exampleUtil exampleSettings [''person''] () =
     Inr [\<lparr>className = Some ''person'', probability = 9 / 10,
           rect = \<lparr>rect_x = 208 / 5, rect_y = 208 / 5, rect_width = 832 / 5, rect_height = 832 / 5\<rparr>\<rparr>,
          \<lparr>className = None, probability = 3 / 10,
           rect = \<lparr>rect_x = 1248 / 5, rect_y = 1248 / 5, rect_width = 832 / 5, rect_height = 624 / 5\<rparr>\<rparr>]"
  using predict_detection_fields [OF example_filtered example_in_range,
      of "[''person'', ''bicycle'', ''car'']"]
    predict_detection_fields [OF example_filtered example_in_range, of "[''person'']"]
  unfolding example_suppressed
  by (simp add: exampleSettings_def)

subsection \<open>The two thresholds\<close>

text \<open>
  C4: \<open>predict\<close> applies two thresholds, given separately: the coarse one, \<open>0.01\<close>, is
  handed to \<open>filterBoxes\<close> before the suppression, and the display threshold
  \<open>yoloModelClassProbThreshold\<close> is applied after it. Of the boxes that passed the filter
  and that the suppression kept, the ones left out of the detections are exactly the
  ones whose score is below the display threshold: the probabilities of the detections
  are the kept scores that are not below it, in order.
\<close>

theorem predict_two_thresholds:
  assumes "yoloHead util modelOutput (yoloModelAnchors settings) (yoloModelClassCount settings) =
       (boxXY, boxWH, boxConfidence, boxClassProbs)"
    and "filterBoxes util (boxesToCorners util boxXY boxWH) boxConfidence boxClassProbs (1 / 100) =
       Some (boxes, scores, classes)"
    and "nonMaxSuppression util
       (map (mulImageDims (yoloModelInputPixelSize settings) (yoloModelInputPixelSize settings)) boxes)
       scores (yoloModelIouThreshold settings) = kept"
    and "\<forall>k \<in> set (map fst kept). k < length classes"
  shows "\<exists>ds. predict util settings classNames modelOutput = Inr ds \<and>
     map probability ds =
       filter (\<lambda>s. \<not> s < yoloModelClassProbThreshold settings) (map (\<lambda>(k, bx, s). s) kept)"
proof -
  have f: "filtered util settings modelOutput = Some (boxes, scores, classes)"
    using assms(1,2) by (simp add: filtered_def)
  have k: "suppressed util settings boxes scores = kept"
    using assms(3) by (simp add: suppressed_def)
  have r: "\<forall>k \<in> set (map fst (suppressed util settings boxes scores)). k < length classes"
    using assms(4) unfolding k .
  have "map probability
          (map (\<lambda>(k, bx, s). nextObject classNames (yoloModelInputPixelSize settings) (classes ! k) s bx)
             (filter (\<lambda>(k, bx, s). \<not> s < yoloModelClassProbThreshold settings) kept)) =
        filter (\<lambda>s. \<not> s < yoloModelClassProbThreshold settings) (map (\<lambda>(k, bx, s). s) kept)"
    by (induction kept) (auto split: prod.splits)
  then show ?thesis
    unfolding predict_in_range [OF f r] k by blast
qed

theorem predict_two_thresholds_witness:
  "\<exists>ds. predict exampleUtil exampleSettings [''person''] () = Inr ds \<and>
     map probability ds = [9 / 10, 3 / 10]"
proof -
  have h1: "yoloHead exampleUtil () (yoloModelAnchors exampleSettings)
      (yoloModelClassCount exampleSettings) = ((), (), (), ())"
    by (simp add: exampleUtil_def)
  have h2: "filterBoxes exampleUtil (boxesToCorners exampleUtil () ()) () () (1 / 100) =
      Some ([(1 / 10, 1 / 10, 1 / 2, 1 / 2), (6 / 10, 6 / 10, 9 / 10, 11 / 10), (0, 0, 1, 1)],
            [9 / 10, 3 / 10, 1 / 10], [0, 1, 0])"
    by (simp add: exampleUtil_def exampleFilterBoxes_def)
  have h3: "nonMaxSuppression exampleUtil
      (map (mulImageDims (yoloModelInputPixelSize exampleSettings)
              (yoloModelInputPixelSize exampleSettings))
         [(1 / 10, 1 / 10, 1 / 2, 1 / 2), (6 / 10, 6 / 10, 9 / 10, 11 / 10), (0, 0, 1, 1)])
      [9 / 10, 3 / 10, 1 / 10] (yoloModelIouThreshold exampleSettings) =
    [(0, (208 / 5, 208 / 5, 208, 208), 9 / 10),
     (1, (1248 / 5, 1248 / 5, 1872 / 5, 2288 / 5), 3 / 10),
     (2, (0, 0, 416, 416), 1 / 10)]"
    using example_suppressed by (simp add: suppressed_def)
  have h4: "\<forall>k \<in> set (map fst [(0::nat, (208 / 5, 208 / 5, 208, 208::real), 9 / 10 :: real),
     (1, (1248 / 5, 1248 / 5, 1872 / 5, 2288 / 5), 3 / 10),
     (2, (0, 0, 416, 416), 1 / 10)]). k < length [0, 1, 0::nat]"
    by simp
  from predict_two_thresholds [OF h1 h2 h3 h4, of "[''person'']"]
  show ?thesis by (simp add: exampleSettings_def)
qed

subsection \<open>The rectangles lie in the model-input square\<close>

text \<open>
  C10: every detection that \<open>predict\<close> returns has its rectangle inside the model-input
  square: \<open>x \<ge> 0\<close>, \<open>y \<ge> 0\<close>, \<open>x + width \<le> maxPix\<close> and \<open>y + height \<le> maxPix\<close>.
\<close>

theorem predict_rect_in_square:
  assumes "predict util settings classNames modelOutput = Inr ds" and "d \<in> set ds"
  shows "0 \<le> rect_x (rect d) \<and> 0 \<le> rect_y (rect d) \<and>
     rect_x (rect d) + rect_width (rect d) \<le> yoloModelInputPixelSize settings \<and>
     rect_y (rect d) + rect_height (rect d) \<le> yoloModelInputPixelSize settings"
proof (cases "filtered util settings modelOutput")
  case None
  with assms show ?thesis by (simp add: predict_None)
next
  case (Some a)
  obtain boxes scores classes where a: "a = (boxes, scores, classes)"
    by (cases a)
  from assms(1) obtain es where
    "ds = forEach (yoloModelClassProbThreshold settings) (yoloModelInputPixelSize settings) classNames es []"
    unfolding predict_Some [OF Some [unfolded a]] by (auto split: sum.splits)
  with assms(2) obtain classIndx s bx
    where "d = nextObject classNames (yoloModelInputPixelSize settings) classIndx s bx"
    using forEach_set by blast
  then show ?thesis
    using nextObject_in_square [of classNames "yoloModelInputPixelSize settings" classIndx s bx]
    by simp
qed

theorem predict_rect_in_square_witness:
  "predict exampleUtil exampleSettings [''person''] () =
     Inr [\<lparr>className = Some ''person'', probability = 9 / 10,
           rect = \<lparr>rect_x = 208 / 5, rect_y = 208 / 5, rect_width = 832 / 5, rect_height = 832 / 5\<rparr>\<rparr>,
          \<lparr>className = None, probability = 3 / 10,
           rect = \<lparr>rect_x = 1248 / 5, rect_y = 1248 / 5, rect_width = 832 / 5, rect_height = 624 / 5\<rparr>\<rparr>] \<and>
   (1248::real) / 5 + 832 / 5 \<le> 416 \<and> (1248::real) / 5 + 624 / 5 \<le> 416"
  using example_predict
    predict_rect_in_square [OF example_predict,
      of "\<lparr>className = None, probability = 3 / 10,
           rect = \<lparr>rect_x = 1248 / 5, rect_y = 1248 / 5, rect_width = 832 / 5, rect_height = 624 / 5\<rparr>\<rparr>"]
  by (simp add: exampleSettings_def)

section \<open>Intersection over union\<close>

lemma area_nonneg: "0 \<le> area a"
  by (cases a) simp

lemma intersectionArea_nonneg: "0 \<le> intersectionArea a b"
  by (cases a; cases b) simp

lemma intersectionArea_le_left: "intersectionArea a b \<le> area a"
  by (cases a; cases b) (auto intro!: mult_mono simp: max_def min_def)

lemma intersectionArea_le_right: "intersectionArea a b \<le> area b"
  by (cases a; cases b) (auto intro!: mult_mono simp: max_def min_def)

lemma IoU_nonneg: "0 \<le> IoU a b"
  using intersectionArea_nonneg [of a b] by (simp add: IoU_def Let_def)

lemma IoU_le_1: "IoU a b \<le> 1"
  using intersectionArea_le_left [of a b] intersectionArea_le_right [of a b]
  by (simp add: IoU_def Let_def)

lemma IoU_zero_area_left: "area a = 0 \<Longrightarrow> IoU a b = 0"
  using intersectionArea_le_left [of a b] intersectionArea_nonneg [of a b]
  by (simp add: IoU_def Let_def)

lemma IoU_zero_area_right: "area b = 0 \<Longrightarrow> IoU a b = 0"
  using intersectionArea_le_right [of a b] intersectionArea_nonneg [of a b]
  by (simp add: IoU_def Let_def)

lemma area_malformed: "b < t \<Longrightarrow> area (t, l, b, r) = 0"
  by simp

lemma IoU_same: "0 < area a \<Longrightarrow> IoU a a = 1"
proof -
  have "intersectionArea a a = area a"
    by (cases a) simp
  then show "0 < area a \<Longrightarrow> IoU a a = 1"
    by (simp add: IoU_def Let_def)
qed

lemma intersectionArea_disjoint:
  "b1 \<le> t2 \<or> b2 \<le> t1 \<or> r1 \<le> l2 \<or> r2 \<le> l1 \<Longrightarrow>
     intersectionArea (t1, l1, b1, r1) (t2, l2, b2, r2) = 0"
  by (auto simp: max_def min_def)

lemma intersectionArea_inside:
  "t1 \<le> t2 \<Longrightarrow> l1 \<le> l2 \<Longrightarrow> b2 \<le> b1 \<Longrightarrow> r2 \<le> r1 \<Longrightarrow>
     intersectionArea (t1, l1, b1, r1) (t2, l2, b2, r2) = area (t2, l2, b2, r2)"
  by (simp add: max_def min_def)

text \<open>
  C8: the union area \<open>areaA + areaB - intersectionArea\<close> is never negative, and \<open>IoU\<close> is the
  quotient of the intersection area by it, or \<open>0\<close> when it is zero, so that \<open>IoU\<close> has a
  value between \<open>0\<close> and \<open>1\<close> for every pair of boxes and nothing is divided by zero. A box
  of area zero and a malformed box (\<open>top > bottom\<close>) have \<open>IoU\<close> zero with every box.
  A box of positive area has \<open>IoU\<close> one with itself, two disjoint boxes have \<open>IoU\<close> zero, and a
  box has \<open>IoU\<close> one half with a box of half its area that it contains.
\<close>

theorem IoU_correct:
  "0 \<le> area a + area b - intersectionArea a b \<and>
   IoU a b = (if area a + area b - intersectionArea a b = 0 then 0
              else intersectionArea a b / (area a + area b - intersectionArea a b)) \<and>
   0 \<le> IoU a b \<and> IoU a b \<le> 1 \<and>
   (area z = 0 \<longrightarrow> IoU z c = 0 \<and> IoU c z = 0) \<and>
   (mb < mt \<longrightarrow> IoU (mt, ml, mb, mr) c = 0 \<and> IoU c (mt, ml, mb, mr) = 0) \<and>
   (0 < area u \<longrightarrow> IoU u u = 1) \<and>
   (b1 \<le> t2 \<or> b2 \<le> t1 \<or> r1 \<le> l2 \<or> r2 \<le> l1 \<longrightarrow>
      IoU (t1, l1, b1, r1) (t2, l2, b2, r2) = 0) \<and>
   (pt \<le> qt \<and> pl \<le> ql \<and> qb \<le> pb \<and> qr \<le> pr \<and> 0 < area (pt, pl, pb, pr) \<and>
    2 * area (qt, ql, qb, qr) = area (pt, pl, pb, pr) \<longrightarrow>
      IoU (pt, pl, pb, pr) (qt, ql, qb, qr) = 1 / 2)"
proof -
  have u: "0 \<le> area a + area b - intersectionArea a b"
    using intersectionArea_le_left [of a b] area_nonneg [of b] by linarith
  have f: "IoU a b = (if area a + area b - intersectionArea a b = 0 then 0
              else intersectionArea a b / (area a + area b - intersectionArea a b))"
    using u by (simp add: IoU_def Let_def)
  have z: "IoU z c = 0 \<and> IoU c z = 0" if "area z = 0"
    using that by (simp add: IoU_zero_area_left IoU_zero_area_right)
  have m: "IoU (mt, ml, mb, mr) c = 0 \<and> IoU c (mt, ml, mb, mr) = 0" if "mb < mt"
    using area_malformed [OF that, of ml mr]
    by (simp only: IoU_zero_area_left IoU_zero_area_right)
  have d: "IoU (t1, l1, b1, r1) (t2, l2, b2, r2) = 0"
    if "b1 \<le> t2 \<or> b2 \<le> t1 \<or> r1 \<le> l2 \<or> r2 \<le> l1"
    unfolding IoU_def Let_def intersectionArea_disjoint [OF that] by simp
  have h: "IoU (pt, pl, pb, pr) (qt, ql, qb, qr) = 1 / 2"
    if "pt \<le> qt \<and> pl \<le> ql \<and> qb \<le> pb \<and> qr \<le> pr \<and> 0 < area (pt, pl, pb, pr) \<and>
        2 * area (qt, ql, qb, qr) = area (pt, pl, pb, pr)"
  proof -
    have i: "intersectionArea (pt, pl, pb, pr) (qt, ql, qb, qr) = area (qt, ql, qb, qr)"
      using that by (simp only: intersectionArea_inside)
    from that have p: "area (pt, pl, pb, pr) = 2 * area (qt, ql, qb, qr)"
      and q: "0 < area (qt, ql, qb, qr)"
      by linarith+
    show ?thesis
      using q by (simp add: IoU_def Let_def i p del: area.simps intersectionArea.simps)
  qed
  show ?thesis
    using u f z m d h IoU_nonneg [of a b] IoU_le_1 [of a b] IoU_same [of u] by blast
qed

theorem IoU_correct_witness:
  "IoU (0, 0, 1, 1) (0, 0, 1, 1) = 1 \<and>
   IoU (0, 0, 1, 1) (2, 2, 3, 3) = 0 \<and>
   IoU (0, 0, 1, 1) (0, 0, 1, 1 / 2) = 1 / 2 \<and>
   IoU (0, 0, 0, 1) (0, 0, 1, 1) = 0 \<and>
   IoU (1, 0, 0, 1) (0, 0, 1, 1) = 0"
  using IoU_correct [where z = "(0, 0, 0, 1)" and c = "(0, 0, 1, 1)"
      and mt = 1 and ml = 0 and mb = 0 and mr = 1 and u = "(0, 0, 1, 1)"
      and ?t1.0 = 0 and ?l1.0 = 0 and ?b1.0 = 1 and ?r1.0 = 1
      and ?t2.0 = 2 and ?l2.0 = 2 and ?b2.0 = 3 and ?r2.0 = 3
      and pt = 0 and pl = 0 and pb = 1 and pr = 1
      and qt = 0 and ql = 0 and qb = 1 and qr = "1 / 2"]
  by simp

section \<open>Suppression\<close>

subsection \<open>The sort\<close>

lemma set_insertIndex: "set (insertIndex boxes i js) = insert i (set js)"
  by (induction js) auto

lemma set_sortIndices: "set (sortIndices boxes is) = set is"
  by (induction "is") (auto simp: set_insertIndex)

lemma before_trans: "before boxes i j \<Longrightarrow> before boxes j k \<Longrightarrow> before boxes i k"
  by (auto simp: before_def)

lemma before_total: "i \<noteq> j \<Longrightarrow> \<not> before boxes i j \<Longrightarrow> before boxes j i"
  by (auto simp: before_def)

lemma sorted_insertIndex:
  "sorted_wrt (before boxes) js \<Longrightarrow> i \<notin> set js \<Longrightarrow> sorted_wrt (before boxes) (insertIndex boxes i js)"
proof (induction js)
  case Nil
  then show ?case by simp
next
  case (Cons j js)
  show ?case
  proof (cases "before boxes i j")
    case True
    with Cons.prems show ?thesis
      by (auto intro: before_trans)
  next
    case False
    with Cons.prems have "before boxes j i"
      by (auto intro: before_total)
    with False Cons show ?thesis
      by (auto simp: set_insertIndex)
  qed
qed

lemma sorted_sortIndices:
  "distinct is \<Longrightarrow> sorted_wrt (before boxes) (sortIndices boxes is)"
  by (induction "is") (auto simp: sorted_insertIndex set_sortIndices)



lemma sorted_before_distinct: "sorted_wrt (before boxes) ks \<Longrightarrow> distinct ks"
  by (induction ks) (auto simp: before_def)

subsection \<open>The selection\<close>

lemma select_subseq:
  "\<exists>ks. select iouThreshold boxes remaining kept = kept @ ks \<and> subseq ks remaining"
proof (induction iouThreshold boxes remaining kept rule: select.induct)
  case (1 iouThreshold boxes kept)
  then show ?case by simp
next
  case (2 iouThreshold boxes i remaining kept)
  then obtain ks where ks: "select iouThreshold boxes (survivors iouThreshold boxes i remaining) (kept @ [i]) = (kept @ [i]) @ ks"
    and sub: "subseq ks (survivors iouThreshold boxes i remaining)"
    by blast
  have "subseq (survivors iouThreshold boxes i remaining) remaining"
    by (simp add: survivors_def)
  with sub have "subseq ks remaining"
    by (rule subseq_order.trans)
  then have "subseq (i # ks) (i # remaining)"
    by simp
  with ks show ?case by simp
qed

lemma sorted_wrt_subseq_before:
  "subseq ks js \<Longrightarrow> sorted_wrt P js \<Longrightarrow> sorted_wrt P ks"
proof (induction ks js rule: list_emb.induct)
  case (list_emb_Nil ys)
  then show ?case by simp
next
  case (list_emb_Cons xs ys y)
  then show ?case by simp
next
  case (list_emb_Cons2 x y xs ys)
  have "z \<in> set ys" if "z \<in> set xs" for z
    using list_emb_set [OF list_emb_Cons2(2) that] by blast
  with list_emb_Cons2 show ?case by auto
qed




lemma select_kept_indices:
  "\<exists>ks. select iouThreshold boxes (sortIndices boxes [0..<length boxes]) [] = ks \<and>
        subseq ks (sortIndices boxes [0..<length boxes]) \<and>
        distinct ks \<and> set ks \<subseteq> {..<length boxes} \<and> sorted_wrt (before boxes) ks"
proof -
  let ?sorted = "sortIndices boxes [0..<length boxes]"
  obtain ks where ks: "select iouThreshold boxes ?sorted [] = ks" and sub: "subseq ks ?sorted"
    using select_subseq [of iouThreshold boxes ?sorted "[]"] by auto
  have "sorted_wrt (before boxes) ?sorted"
    by (simp add: sorted_sortIndices)
  with sub have srt: "sorted_wrt (before boxes) ks"
    by (rule sorted_wrt_subseq_before)
  have "z \<in> set ?sorted" if "z \<in> set ks" for z
    using list_emb_set [OF sub that] by blast
  then have "set ks \<subseteq> {..<length boxes}"
    by (auto simp: set_sortIndices)
  with ks sub srt show ?thesis
    by (auto dest: sorted_before_distinct)
qed

text \<open>
  C5: for every list of scored boxes and every threshold, the output of \<open>suppress\<close> is the
  list of the input boxes at some distinct positions \<open>ks\<close> of the input, and those
  positions come by descending score, boxes of equal score in the order of the input
  (by ascending position); so the output is sorted by descending score.
\<close>

theorem suppress_order:
  "\<exists>ks. suppress boxes iouThreshold = map (\<lambda>i. boxes ! i) ks \<and>
        distinct ks \<and> set ks \<subseteq> {..<length boxes} \<and>
        sorted_wrt (\<lambda>i j. score (boxes ! j) < score (boxes ! i) \<or>
                          (score (boxes ! i) = score (boxes ! j) \<and> i < j)) ks \<and>
        sorted_wrt (\<lambda>a b. score b \<le> score a) (suppress boxes iouThreshold)"
proof -
  obtain ks where ks: "select iouThreshold boxes (sortIndices boxes [0..<length boxes]) [] = ks"
    and d: "distinct ks" and r: "set ks \<subseteq> {..<length boxes}"
    and s: "sorted_wrt (before boxes) ks"
    using select_kept_indices by blast
  have s': "sorted_wrt (\<lambda>i j. score (boxes ! j) < score (boxes ! i) \<or>
                          (score (boxes ! i) = score (boxes ! j) \<and> i < j)) ks"
    using s by (simp add: before_def [abs_def])
  have "sorted_wrt (\<lambda>i j. score (boxes ! j) \<le> score (boxes ! i)) ks"
    using s' by (rule sorted_wrt_mono_rel [rotated]) auto
  then have "sorted_wrt (\<lambda>a b. score b \<le> score a) (map (\<lambda>i. boxes ! i) ks)"
    by (simp add: sorted_wrt_map)
  with ks d r s' show ?thesis
    by (auto simp: suppress_def)
qed

theorem suppress_order_witness:
  "\<exists>ks. suppress overlapExample (15 / 100) = map (\<lambda>i. overlapExample ! i) ks \<and>
        distinct ks \<and> set ks \<subseteq> {..<length overlapExample} \<and>
        sorted_wrt (\<lambda>i j. score (overlapExample ! j) < score (overlapExample ! i) \<or>
                          (score (overlapExample ! i) = score (overlapExample ! j) \<and> i < j)) ks \<and>
        sorted_wrt (\<lambda>a b. score b \<le> score a) (suppress overlapExample (15 / 100))"
  by (rule suppress_order)




section \<open>The score filter\<close>

lemma argmax_is_max:
  "ps \<noteq> [] \<Longrightarrow> argmax ps < length ps \<and> (\<forall>k < length ps. ps ! k \<le> ps ! argmax ps) \<and>
     (\<forall>k < argmax ps. ps ! k < ps ! argmax ps)"
proof (induction ps rule: argmax.induct)
  case 1
  then show ?case by simp
next
  case (2 p)
  then show ?case by simp
next
  case (3 p q ps)
  let ?j = "argmax (q # ps)"
  from 3 have ih: "?j < length (q # ps)" "\<forall>k < length (q # ps). (q # ps) ! k \<le> (q # ps) ! ?j"
    "\<forall>k < ?j. (q # ps) ! k < (q # ps) ! ?j"
    by simp_all
  show ?case
  proof (cases "(q # ps) ! ?j \<le> p")
    case True
    then have a: "argmax (p # q # ps) = 0"
      by (simp add: Let_def)
    have "(p # q # ps) ! k \<le> p" if "k < length (p # q # ps)" for k
    proof (cases k)
      case 0
      then show ?thesis by simp
    next
      case (Suc k')
      with that ih(2) have "(q # ps) ! k' \<le> (q # ps) ! ?j" by simp
      with True Suc show ?thesis by simp
    qed
    with a show ?thesis by simp
  next
    case False
    then have a: "argmax (p # q # ps) = Suc ?j"
      by (simp add: Let_def)
    have le: "(p # q # ps) ! k \<le> (q # ps) ! ?j" if "k < length (p # q # ps)" for k
    proof (cases k)
      case 0
      with False show ?thesis by simp
    next
      case (Suc k')
      with that ih(2) show ?thesis by simp
    qed
    have lt: "(p # q # ps) ! k < (q # ps) ! ?j" if "k < Suc ?j" for k
    proof (cases k)
      case 0
      with False show ?thesis by simp
    next
      case (Suc k')
      with that ih(3) show ?thesis by simp
    qed
    from a ih(1) le lt show ?thesis by simp
  qed
qed

lemma scoreFilter_filter:
  "scoreFilter boxes minScore = filter (\<lambda>sb. minScore \<le> score sb) (List.map_filter scoreBox boxes)"
  by (induction boxes) (auto simp: map_filter_simps split: option.splits simp del: scoreBox.simps)

lemma set_map_filter_scoreBox:
  "sb \<in> set (List.map_filter scoreBox boxes) \<longleftrightarrow> (\<exists>p \<in> set boxes. scoreBox p = Some sb)"
  by (induction boxes) (auto simp: map_filter_simps split: option.splits simp del: scoreBox.simps)

text \<open>
  C7: for every list of boxes and thresholds \<open>s1 \<le> s2\<close>, the filter at \<open>s2\<close> returns a
  subsequence of what it returns at \<open>s1\<close>, hence no more boxes; and a scored box is in the
  output at \<open>s1\<close> exactly when it is the scoring of an input box, with
  \<open>score = confidence * classProbs[classIndex]\<close>, and that score is at least \<open>s1\<close>.
\<close>

theorem scoreFilter_monotone:
  assumes "s1 \<le> s2"
  shows "length (scoreFilter boxes s2) \<le> length (scoreFilter boxes s1) \<and>
     subseq (scoreFilter boxes s2) (scoreFilter boxes s1) \<and>
     (sb \<in> set (scoreFilter boxes s1) \<longleftrightarrow>
        (\<exists>(d, c) \<in> set boxes. classProbs d \<noteq> [] \<and>
           sb = \<lparr>box = c, classIndex = argmax (classProbs d),
                  score = confidence d * classProbs d ! argmax (classProbs d)\<rparr> \<and>
           s1 \<le> confidence d * classProbs d ! argmax (classProbs d)))"
proof -
  have "scoreFilter boxes s2 = filter (\<lambda>sb. s2 \<le> score sb) (scoreFilter boxes s1)"
    using assms by (auto simp: scoreFilter_filter intro!: filter_cong)
  then have sub: "subseq (scoreFilter boxes s2) (scoreFilter boxes s1)"
    by (metis subseq_filter_left)
  then have len: "length (scoreFilter boxes s2) \<le> length (scoreFilter boxes s1)"
    by (rule list_emb_length)
  have mem: "sb \<in> set (scoreFilter boxes s1) \<longleftrightarrow>
        (\<exists>(d, c) \<in> set boxes. classProbs d \<noteq> [] \<and>
           sb = \<lparr>box = c, classIndex = argmax (classProbs d),
                  score = confidence d * classProbs d ! argmax (classProbs d)\<rparr> \<and>
           s1 \<le> confidence d * classProbs d ! argmax (classProbs d))"
    unfolding scoreFilter_filter set_filter mem_Collect_eq set_map_filter_scoreBox
  proof
    assume "(\<exists>p \<in> set boxes. scoreBox p = Some sb) \<and> s1 \<le> score sb"
    then obtain d c where "(d, c) \<in> set boxes" and "scoreBox (d, c) = Some sb" and "s1 \<le> score sb"
      by (metis surj_pair)
    then show "\<exists>(d, c) \<in> set boxes. classProbs d \<noteq> [] \<and>
           sb = \<lparr>box = c, classIndex = argmax (classProbs d),
                  score = confidence d * classProbs d ! argmax (classProbs d)\<rparr> \<and>
           s1 \<le> confidence d * classProbs d ! argmax (classProbs d)"
      by (intro bexI [of _ "(d, c)"]) (auto split: if_splits)
  next
    assume "\<exists>(d, c) \<in> set boxes. classProbs d \<noteq> [] \<and>
           sb = \<lparr>box = c, classIndex = argmax (classProbs d),
                  score = confidence d * classProbs d ! argmax (classProbs d)\<rparr> \<and>
           s1 \<le> confidence d * classProbs d ! argmax (classProbs d)"
    then obtain d c where in_boxes: "(d, c) \<in> set boxes" and ne: "classProbs d \<noteq> []"
      and sb: "sb = \<lparr>box = c, classIndex = argmax (classProbs d),
                  score = confidence d * classProbs d ! argmax (classProbs d)\<rparr>"
      and le: "s1 \<le> confidence d * classProbs d ! argmax (classProbs d)"
      by blast
    from ne sb have "scoreBox (d, c) = Some sb" by simp
    with in_boxes have "\<exists>p \<in> set boxes. scoreBox p = Some sb" by blast
    moreover from sb le have "s1 \<le> score sb" by simp
    ultimately show "(\<exists>p \<in> set boxes. scoreBox p = Some sb) \<and> s1 \<le> score sb" ..
  qed
  from len sub mem show ?thesis by blast
qed

theorem scoreFilter_monotone_witness:
  "(5::real) / 100 \<le> 1 / 2 \<and>
   length (scoreFilter exampleDecoded (1 / 2)) = 1 \<and>
   length (scoreFilter exampleDecoded (5 / 100)) = 2 \<and>
   length (scoreFilter exampleDecoded (1 / 2)) \<le> length (scoreFilter exampleDecoded (5 / 100))"
proof -
  have h: "(5::real) / 100 \<le> 1 / 2" by simp
  have a: "length (scoreFilter exampleDecoded (1 / 2)) = 1"
    by (simp add: exampleDecoded_def Let_def)
  have b: "length (scoreFilter exampleDecoded (5 / 100)) = 2"
    by (simp add: exampleDecoded_def Let_def)
  from scoreFilter_monotone [OF h, of exampleDecoded] h a b show ?thesis by blast
qed

section \<open>The grid decoder\<close>

lemma concat_blocks:
  assumes "\<forall>i < n. length (f i) = m"
  shows "length (concat (map f [0..<n])) = n * m \<and>
     (\<forall>i < n. \<forall>j < m. concat (map f [0..<n]) ! (i * m + j) = f i ! j)"
  using assms
proof (induction n)
  case 0
  then show ?case by simp
next
  case (Suc n)
  then have len: "length (concat (map f [0..<n])) = n * m"
    and ih: "\<forall>i < n. \<forall>j < m. concat (map f [0..<n]) ! (i * m + j) = f i ! j"
    by simp_all
  have "concat (map f [0..<Suc n]) ! (i * m + j) = f i ! j" if "i < Suc n" "j < m" for i j
  proof (cases "i < n")
    case True
    then have "Suc i \<le> n" by simp
    then have "Suc i * m \<le> n * m" by (rule mult_le_mono1)
    with that(2) have "i * m + j < n * m" by simp
    with ih True that(2) show ?thesis
      by (simp add: nth_append len)
  next
    case False
    with that(1) have "i = n" by simp
    with that(2) Suc.prems show ?thesis
      by (simp add: nth_append len)
  qed
  with len Suc.prems show ?case by simp
qed

lemma decode_ok:
  assumes "depth raw = 5 + numClasses" and "length anchors = numAnchors raw"
  shows "decode raw anchors numClasses =
     Inr (concat (map (\<lambda>row.
                  concat (map (\<lambda>col.
                    map (\<lambda>a. decodeBox raw anchors numClasses row col a) [0..<numAnchors raw])
                  [0..<gridWidth raw]))
                [0..<gridHeight raw]))"
  using assms by (simp add: decode_def)

lemma decode_index:
  assumes "row < gh" and "col < gw" and "a < na"
  shows "length (concat (map (\<lambda>row. concat (map (\<lambda>col. map (g row col) [0..<na]) [0..<gw])) [0..<gh]))
           = gh * gw * na \<and>
     concat (map (\<lambda>row. concat (map (\<lambda>col. map (g row col) [0..<na]) [0..<gw])) [0..<gh])
       ! ((row * gw + col) * na + a) = g row col a"
proof -
  have inner: "length (concat (map (\<lambda>col. map (g r col) [0..<na]) [0..<gw])) = gw * na \<and>
     (\<forall>i < gw. \<forall>j < na. concat (map (\<lambda>col. map (g r col) [0..<na]) [0..<gw]) ! (i * na + j)
        = map (g r i) [0..<na] ! j)" for r
    by (rule concat_blocks) simp
  have outer: "length (concat (map (\<lambda>row. concat (map (\<lambda>col. map (g row col) [0..<na]) [0..<gw])) [0..<gh]))
           = gh * (gw * na) \<and>
     (\<forall>i < gh. \<forall>j < gw * na.
        concat (map (\<lambda>row. concat (map (\<lambda>col. map (g row col) [0..<na]) [0..<gw])) [0..<gh])
          ! (i * (gw * na) + j) = concat (map (\<lambda>col. map (g i col) [0..<na]) [0..<gw]) ! j)"
    by (rule concat_blocks) (simp add: inner)
  have "Suc col \<le> gw" using assms(2) by simp
  then have "Suc col * na \<le> gw * na" by (rule mult_le_mono1)
  with assms(3) have j: "col * na + a < gw * na" by simp
  have e: "(row * gw + col) * na + a = row * (gw * na) + (col * na + a)"
    by (simp add: algebra_simps)
  from outer assms(1) j have
    "concat (map (\<lambda>row. concat (map (\<lambda>col. map (g row col) [0..<na]) [0..<gw])) [0..<gh])
       ! (row * (gw * na) + (col * na + a)) = concat (map (\<lambda>col. map (g row col) [0..<na]) [0..<gw]) ! (col * na + a)"
    by blast
  also have "\<dots> = map (g row col) [0..<na] ! a"
    using inner [of row] assms(2,3) by blast
  also have "\<dots> = g row col a"
    using assms(3) by simp
  finally show ?thesis
    using outer by (simp add: e mult.assoc)
qed

text \<open>
  C9: on a raw output of last dimension \<open>5 + numClasses\<close> with \<open>numAnchors\<close> anchors,
  \<open>decode\<close> returns \<open>gridHeight * gridWidth * numAnchors\<close> boxes, and the box of the grid
  cell \<open>(row, col)\<close> and the anchor \<open>a\<close> has
  \<open>centerX = (sigmoid(tx) + col) / gridWidth\<close>, \<open>centerY = (sigmoid(ty) + row) / gridHeight\<close>,
  \<open>width = anchors[a].width * exp(tw) / gridWidth\<close>,
  \<open>height = anchors[a].height * exp(th) / gridHeight\<close>, \<open>confidence = sigmoid(objectness)\<close>
  and \<open>classProbs[i] = sigmoid(classLogit_i)\<close> for each class \<open>i\<close>.
\<close>

theorem decode_boxes:
  assumes "depth raw = 5 + numClasses" and "length anchors = numAnchors raw"
    and "row < gridHeight raw" and "col < gridWidth raw" and "a < numAnchors raw"
  shows "\<exists>out. decode raw anchors numClasses = Inr out \<and>
     length out = gridHeight raw * gridWidth raw * numAnchors raw \<and>
     centerX (out ! ((row * gridWidth raw + col) * numAnchors raw + a)) =
       (sigmoid (entry raw row col a 0) + real col) / real (gridWidth raw) \<and>
     centerY (out ! ((row * gridWidth raw + col) * numAnchors raw + a)) =
       (sigmoid (entry raw row col a 1) + real row) / real (gridHeight raw) \<and>
     width (out ! ((row * gridWidth raw + col) * numAnchors raw + a)) =
       fst (anchors ! a) * exp (entry raw row col a 2) / real (gridWidth raw) \<and>
     height (out ! ((row * gridWidth raw + col) * numAnchors raw + a)) =
       snd (anchors ! a) * exp (entry raw row col a 3) / real (gridHeight raw) \<and>
     confidence (out ! ((row * gridWidth raw + col) * numAnchors raw + a)) =
       sigmoid (entry raw row col a 4) \<and>
     classProbs (out ! ((row * gridWidth raw + col) * numAnchors raw + a)) =
       map (\<lambda>i. sigmoid (entry raw row col a (5 + i))) [0..<numClasses]"
proof -
  let ?k = "(row * gridWidth raw + col) * numAnchors raw + a"
  obtain out where out: "decode raw anchors numClasses = Inr out"
    and len: "length out = gridHeight raw * gridWidth raw * numAnchors raw"
    and nth: "out ! ?k = decodeBox raw anchors numClasses row col a"
    using decode_index [OF assms(3-5), of "decodeBox raw anchors numClasses"]
    unfolding decode_ok [OF assms(1,2)] by blast
  show ?thesis
    using out len nth by (simp add: decodeBox_def)
qed

theorem decode_boxes_witness:
  "\<exists>out. decode exampleRaw [(2, 3)] 1 = Inr out \<and> length out = 2 \<and>
     centerX (out ! 1) = 3 / 4 \<and> centerY (out ! 1) = 1 / 2 \<and>
     width (out ! 1) = 1 \<and> height (out ! 1) = 3 \<and>
     confidence (out ! 1) = 1 / 2 \<and> classProbs (out ! 1) = [1 / 2]"
  using decode_boxes [of exampleRaw 1 "[(2, 3)]" 0 1 0]
  by (simp add: exampleRaw_def sigmoid_def)

end
